theory Spec2Isabelle
  imports Complex_Main
begin

section \<open>The danmaku rendering engine (class DanmakuEngine)\<close>

text \<open>
  The engine overlays scrolling comments on a container. It keeps one number per track
  (the time at which the track's last comment ends), a pool of DOM elements that are
  reused, and three settings (speed, opacity, enabled).

  Numbers: a JavaScript number is modelled as an exact rational when it is finite, so
  floating-point rounding is outside the model. The values a division by zero produces
  (\<open>Infinity\<close>, \<open>-Infinity\<close>, \<open>NaN\<close>) are kept, because the engine stores the
  result of such a division in \<open>trackStatus\<close> and compares against it. Zero is the
  positive zero.
\<close>

subsection \<open>JavaScript numbers\<close>

datatype jsnum = Num rat | PosInfinity | NegInfinity | NaN

text \<open>\<open>a / b\<close> for finite \<open>a\<close> and \<open>b\<close>.\<close>

definition js_div :: "rat \<Rightarrow> rat \<Rightarrow> jsnum" where
  "js_div a b =
     (if b \<noteq> 0 then Num (a / b)
      else if 0 < a then PosInfinity
      else if a < 0 then NegInfinity
      else NaN)"

text \<open>\<open>x * c\<close> for a finite \<open>c\<close>.\<close>

fun js_mul :: "jsnum \<Rightarrow> rat \<Rightarrow> jsnum" where
  "js_mul (Num a) c = Num (a * c)"
| "js_mul PosInfinity c = (if 0 < c then PosInfinity else if c < 0 then NegInfinity else NaN)"
| "js_mul NegInfinity c = (if 0 < c then NegInfinity else if c < 0 then PosInfinity else NaN)"
| "js_mul NaN c = NaN"

text \<open>\<open>a + x\<close> for a finite \<open>a\<close>.\<close>

fun js_add :: "rat \<Rightarrow> jsnum \<Rightarrow> jsnum" where
  "js_add a (Num b) = Num (a + b)"
| "js_add a PosInfinity = PosInfinity"
| "js_add a NegInfinity = NegInfinity"
| "js_add a NaN = NaN"

text \<open>\<open>a >= x\<close> and \<open>a < x\<close> for a finite \<open>a\<close>; every comparison with \<open>NaN\<close> is false.\<close>

fun js_ge :: "rat \<Rightarrow> jsnum \<Rightarrow> bool" where
  "js_ge a (Num b) = (b \<le> a)"
| "js_ge a PosInfinity = False"
| "js_ge a NegInfinity = True"
| "js_ge a NaN = False"

fun js_lt :: "rat \<Rightarrow> jsnum \<Rightarrow> bool" where
  "js_lt a (Num b) = (a < b)"
| "js_lt a PosInfinity = True"
| "js_lt a NegInfinity = False"
| "js_lt a NaN = False"

text \<open>\<open>x >= 0\<close>.\<close>

fun js_nonneg :: "jsnum \<Rightarrow> bool" where
  "js_nonneg (Num a) = (0 \<le> a)"
| "js_nonneg PosInfinity = True"
| "js_nonneg NegInfinity = False"
| "js_nonneg NaN = False"


text \<open>
  \<open>v || dflt\<close>: an absent field (\<open>undefined\<close>), the empty string and the number zero
  are falsy.
\<close>

definition js_or_string :: "string option \<Rightarrow> string \<Rightarrow> string" where
  "js_or_string v dflt = (case v of None \<Rightarrow> dflt | Some x \<Rightarrow> if x = [] then dflt else x)"

definition js_or_number :: "rat option \<Rightarrow> rat \<Rightarrow> rat" where
  "js_or_number v dflt = (case v of None \<Rightarrow> dflt | Some x \<Rightarrow> if x = 0 then dflt else x)"

subsection \<open>Data\<close>

text \<open>
  A comment as \<open>add\<close> receives it: \<open>{ content, color, font_size, username }\<close>, the last
  three optional.
\<close>

record danmaku =
  content :: string
  color :: "string option"
  font_size :: "rat option"
  username :: "string option"

text \<open>
  A pooled DOM element: the properties the engine writes. A style property holds what was
  assigned to it: a length \<open>n + 'px'\<close> is \<open>Some n\<close>, the transition
  \<open>transform ${duration}ms linear\<close> is \<open>Some duration\<close>, the transform
  \<open>translateX(-${totalDistance}px)\<close> is \<open>Some totalDistance\<close>, and a property never
  assigned (or assigned \<open>''\<close>) is \<open>None\<close>. \<open>textContent\<close> is the element's content,
  which \<open>innerHTML = ''\<close> empties.
\<close>

record element =
  className :: string
  textContent :: string
  style_display :: string
  style_transform :: "rat option"
  style_transition :: "jsnum option"
  style_color :: string
  style_fontSize :: "rat option"
  style_fontFamily :: string
  style_textShadow :: string
  style_opacity :: "rat option"
  style_top :: "rat option"
  style_left :: "rat option"

text \<open>
  The engine's fields. An element is identified by its index in \<open>danmakuPool\<close> (the pool
  only grows, at its end). \<open>timers\<close> are the pending \<open>setTimeout\<close> callbacks of
  \<open>add\<close>: the delay and the element to recycle.
\<close>

record engine =
  trackHeight :: nat
  trackGap :: nat
  numTracks :: nat
  trackStatus :: "jsnum list"
  danmakuPool :: "element list"
  poolSize :: nat
  speed :: rat
  opacity :: rat
  enabled :: bool
  timers :: "(jsnum \<times> nat) list"

subsection \<open>Tracks\<close>

text \<open>
  \<open>calculateTracks\<close>: \<open>numTracks = Math.floor(clientHeight / (trackHeight + trackGap))\<close>
  and \<open>trackStatus = new Array(numTracks).fill(0)\<close>. \<open>clientHeight\<close> is a non-negative
  integer.
\<close>

definition calculateTracks :: "nat \<Rightarrow> engine \<Rightarrow> engine" where
  "calculateTracks containerHeight s =
     (let n = containerHeight div (trackHeight s + trackGap s)
      in s\<lparr>numTracks := n, trackStatus := replicate n (Num 0)\<rparr>)"

text \<open>
  The test of the loop in \<open>add\<close>: \<open>now >= this.trackStatus[i]\<close>. A read past the end
  of the array is \<open>undefined\<close>, and the comparison is then false.
\<close>

definition track_available :: "rat \<Rightarrow> jsnum list \<Rightarrow> nat \<Rightarrow> bool" where
  "track_available now ts i = (i < length ts \<and> js_ge now (ts ! i))"

text \<open>
  The loop \<open>for (let i = 0; i < this.numTracks; i++) { if (...) { trackIndex = i; break; } }\<close>,
  from index \<open>i\<close> on; \<open>None\<close> is \<open>trackIndex === -1\<close>.
\<close>

function find_track :: "rat \<Rightarrow> jsnum list \<Rightarrow> nat \<Rightarrow> nat \<Rightarrow> nat option" where
  "find_track now ts n i =
     (if i < n then (if track_available now ts i then Some i else find_track now ts n (Suc i))
      else None)"
  by pat_completeness auto
termination
  by (relation "measure (\<lambda>(now, ts, n, i). n - i)") auto

declare find_track.simps [simp del]

definition select_track :: "rat \<Rightarrow> engine \<Rightarrow> nat option" where
  "select_track now s = find_track now (trackStatus s) (numTracks s) 0"

subsection \<open>The element pool\<close>

text \<open>The element \<open>createPool\<close> makes, and the one \<open>getDanmakuElement\<close> makes.\<close>

definition blank_element :: element where
  "blank_element =
     \<lparr>className = [], textContent = [], style_display = [], style_transform = None,
      style_transition = None, style_color = [], style_fontSize = None,
      style_fontFamily = [], style_textShadow = [], style_opacity = None,
      style_top = None, style_left = None\<rparr>"

definition pooled_element :: element where
  "pooled_element = blank_element\<lparr>className := ''danmaku'', style_display := ''none''\<rparr>"

definition grown_element :: element where
  "grown_element = blank_element\<lparr>className := ''danmaku''\<rparr>"

fun createPool_loop :: "nat \<Rightarrow> element list \<Rightarrow> element list" where
  "createPool_loop 0 pool = pool"
| "createPool_loop (Suc k) pool = createPool_loop k (pool @ [pooled_element])"

definition createPool :: "engine \<Rightarrow> engine" where
  "createPool s = s\<lparr>danmakuPool := createPool_loop (poolSize s) (danmakuPool s)\<rparr>"

text \<open>\<open>danmakuPool.find(e => e.style.display === 'none')\<close>, as the index of the element.\<close>

fun find_hidden :: "element list \<Rightarrow> nat option" where
  "find_hidden [] = None"
| "find_hidden (e # es) =
     (if style_display e = ''none'' then Some 0 else map_option Suc (find_hidden es))"

definition getDanmakuElement :: "engine \<Rightarrow> nat \<times> engine" where
  "getDanmakuElement s =
     (case find_hidden (danmakuPool s) of
        Some i \<Rightarrow> (i, s)
      | None \<Rightarrow> (length (danmakuPool s), s\<lparr>danmakuPool := danmakuPool s @ [grown_element]\<rparr>))"

definition recycleDanmakuElement :: "element \<Rightarrow> element" where
  "recycleDanmakuElement el =
     el\<lparr>style_display := ''none'', style_transform := None, textContent := []\<rparr>"

subsection \<open>The constructor\<close>

definition new_engine :: "nat \<Rightarrow> engine" where
  "new_engine containerHeight =
     createPool (calculateTracks containerHeight
       \<lparr>trackHeight = 30, trackGap = 5, numTracks = 0, trackStatus = [],
        danmakuPool = [], poolSize = 50, speed = 100, opacity = 1, enabled = True,
        timers = []\<rparr>)"

subsection \<open>Adding a comment\<close>

text \<open>
  \<open>add(danmaku)\<close>. The environment is passed in: \<open>measureText\<close> (the width of a text
  at a font size, which the source reads from a temporary DOM element as its
  \<open>clientWidth\<close>; the model takes the answer as given and does not look into the body of
  \<open>measureText\<close>), the container's \<open>clientWidth\<close> and \<open>Date.now()\<close>.
\<close>

definition add :: "(string \<Rightarrow> rat \<Rightarrow> rat) \<Rightarrow> rat \<Rightarrow> rat \<Rightarrow> danmaku \<Rightarrow> engine \<Rightarrow> engine" where
  "add measureText containerWidth now d s =
     (if \<not> enabled s then s
      else case select_track now s of
        None \<Rightarrow> s
      | Some trackIndex \<Rightarrow>
          (let (i, s1) = getDanmakuElement s;
               el = (danmakuPool s1 ! i)
                 \<lparr>textContent := content d,
                  style_color := js_or_string (color d) ''#FFFFFF'',
                  style_fontSize := Some (js_or_number (font_size d) 24),
                  style_fontFamily := ''Microsoft YaHei, sans-serif'',
                  style_textShadow :=
                    ''1px 1px 2px #000, -1px -1px 2px #000, 1px -1px 2px #000, -1px 1px 2px #000'',
                  style_opacity := Some (opacity s)\<rparr>;
               textWidth = measureText (content d) (js_or_number (font_size d) 24);
               totalDistance = containerWidth + textWidth;
               duration = js_mul (js_div totalDistance (speed s)) 1000;
               top = of_nat (trackIndex * (trackHeight s + trackGap s));
               el = el\<lparr>style_top := Some top, style_left := Some containerWidth\<rparr>;
               ts = (trackStatus s1)[trackIndex := js_add now duration];
               el = el\<lparr>style_display := ''block'', style_transition := Some duration,
                       style_transform := Some totalDistance\<rparr>
           in s1\<lparr>trackStatus := ts,
                 danmakuPool := (danmakuPool s1)[i := el],
                 timers := timers s1 @ [(duration, i)]\<rparr>))"

subsection \<open>Settings\<close>

definition setEnabled :: "bool \<Rightarrow> engine \<Rightarrow> engine" where
  "setEnabled flag s =
     (let s1 = s\<lparr>enabled := flag\<rparr>
      in if \<not> flag
         then s1\<lparr>danmakuPool := map (\<lambda>el. el\<lparr>style_display := ''none''\<rparr>) (danmakuPool s1),
                 trackStatus := replicate (numTracks s1) (Num 0)\<rparr>
         else s1)"

definition setOpacity :: "rat \<Rightarrow> engine \<Rightarrow> engine" where
  "setOpacity v s =
     s\<lparr>opacity := v, danmakuPool := map (\<lambda>el. el\<lparr>style_opacity := Some v\<rparr>) (danmakuPool s)\<rparr>"

definition setSpeed :: "rat \<Rightarrow> engine \<Rightarrow> engine" where
  "setSpeed speedMultiplier s = s\<lparr>speed := 100 * speedMultiplier\<rparr>"

definition clear :: "engine \<Rightarrow> engine" where
  "clear s =
     s\<lparr>danmakuPool := map (\<lambda>el. el\<lparr>style_display := ''none''\<rparr>) (danmakuPool s),
       trackStatus := replicate (numTracks s) (Num 0)\<rparr>"

subsection \<open>Timers and runs\<close>

text \<open>
  The \<open>k\<close>-th pending timer fires: the callback \<open>() => this.recycleDanmakuElement(el)\<close>
  runs and the timer is gone. Nothing cancels a timer. The model lets a pending timer fire
  at any moment and in any order, which covers the moments at which the host fires it.
\<close>

definition fire :: "nat \<Rightarrow> engine \<Rightarrow> engine" where
  "fire k s =
     (if k < length (timers s)
      then (let i = snd (timers s ! k)
            in s\<lparr>timers := take k (timers s) @ drop (Suc k) (timers s),
                 danmakuPool := (danmakuPool s)[i := recycleDanmakuElement (danmakuPool s ! i)]\<rparr>)
      else s)"

text \<open>
  What can happen to an engine: a call of its interface, a timer firing, or the window's
  resize event (which runs \<open>calculateTracks\<close>). \<open>Add now w d\<close> is a call of \<open>add\<close> at
  time \<open>now\<close> with container width \<open>w\<close>.
\<close>

datatype event =
    Add rat rat danmaku
  | Fire nat
  | SetEnabled bool
  | SetOpacity rat
  | SetSpeed rat
  | Clear
  | Resize nat

fun step :: "(string \<Rightarrow> rat \<Rightarrow> rat) \<Rightarrow> event \<Rightarrow> engine \<Rightarrow> engine" where
  "step m (Add now w d) s = add m w now d s"
| "step m (Fire k) s = fire k s"
| "step m (SetEnabled b) s = setEnabled b s"
| "step m (SetOpacity v) s = setOpacity v s"
| "step m (SetSpeed x) s = setSpeed x s"
| "step m Clear s = clear s"
| "step m (Resize h) s = calculateTracks h s"


subsection \<open>Observing a run\<close>

text \<open>
  An admission is a call of \<open>add\<close> that passes both early returns: the track chosen
  (\<open>trackIndex\<close>), the time of the call (\<open>now\<close>) and the value of \<open>duration\<close>.
  The track is reserved for the times \<open>t\<close> with \<open>now \<le> t < now + duration\<close>.
\<close>

record admission =
  adm_track :: nat
  adm_start :: rat
  adm_duration :: jsnum

fun admitted :: "(string \<Rightarrow> rat \<Rightarrow> rat) \<Rightarrow> event \<Rightarrow> engine \<Rightarrow> admission option" where
  "admitted m (Add now w d) s =
     (if \<not> enabled s then None
      else case select_track now s of
        None \<Rightarrow> None
      | Some trackIndex \<Rightarrow>
          Some \<lparr>adm_track = trackIndex, adm_start = now,
                adm_duration =
                  js_mul (js_div (w + m (content d) (js_or_number (font_size d) 24)) (speed s)) 1000\<rparr>)"
| "admitted m e s = None"

fun admissions :: "(string \<Rightarrow> rat \<Rightarrow> rat) \<Rightarrow> event list \<Rightarrow> engine \<Rightarrow> admission list" where
  "admissions m [] s = []"
| "admissions m (e # es) s =
     (case admitted m e s of None \<Rightarrow> [] | Some a \<Rightarrow> [a]) @ admissions m es (step m e s)"

definition occupies :: "admission \<Rightarrow> rat \<Rightarrow> bool" where
  "occupies a t = (adm_start a \<le> t \<and> js_lt t (js_add (adm_start a) (adm_duration a)))"

text \<open>
  A list of admissions to one track in which each starts at or after the end time \<open>f\<close>
  left by the one before.
\<close>

fun chain_from :: "jsnum \<Rightarrow> admission list \<Rightarrow> bool" where
  "chain_from f [] = True"
| "chain_from f (a # as) =
     (js_ge (adm_start a) f \<and> chain_from (js_add (adm_start a) (adm_duration a)) as)"

text \<open>The events that leave the reservations alone: all but resize, clear and setEnabled(false).\<close>

fun keeps_reservations :: "event \<Rightarrow> bool" where
  "keeps_reservations (Resize h) = False"
| "keeps_reservations Clear = False"
| "keeps_reservations (SetEnabled b) = b"
| "keeps_reservations e = True"






subsection \<open>Example inputs\<close>

text \<open>
  A comment with no optional field, one with all of them, and a text measurement that
  answers 100 pixels for every text.
\<close>

definition demo :: danmaku where
  "demo = \<lparr>content = ''hello'', color = None, font_size = None, username = None\<rparr>"

definition styled :: danmaku where
  "styled = \<lparr>content = ''hi'', color = Some ''#FF0000'', font_size = Some 32, username = Some ''ann''\<rparr>"

definition fixed_width :: "string \<Rightarrow> rat \<Rightarrow> rat" where
  "fixed_width text fontSize = 100"



text \<open>
  One track: a comment, one that arrives while the track is taken, one that arrives after
  it is free, then a timer, a change of speed and a last comment.
\<close>

definition busy_lane :: "event list" where
  "busy_lane =
     [Add 0 900 demo, Add 5000 900 demo, Add 10001 900 demo, Fire 0, SetSpeed 2,
      Add 20001 900 styled]"

section \<open>Properties\<close>

subsection \<open>The track scan and the pool lookup\<close>

lemma find_track_Some:
  "find_track now ts n i = Some j \<Longrightarrow>
     i \<le> j \<and> j < n \<and> track_available now ts j \<and> (\<forall>k. i \<le> k \<and> k < j \<longrightarrow> \<not> track_available now ts k)"
proof (induction now ts n i rule: find_track.induct)
  case (1 now ts n i)
  show ?case
  proof (cases "i < n \<and> \<not> track_available now ts i")
    case True
    then have "find_track now ts n (Suc i) = Some j"
      using "1.prems" by (simp add: find_track.simps [of now ts n i])
    with "1.IH" True have IH: "Suc i \<le> j \<and> j < n \<and> track_available now ts j
        \<and> (\<forall>k. Suc i \<le> k \<and> k < j \<longrightarrow> \<not> track_available now ts k)"
      by simp
    show ?thesis
    proof (intro conjI allI impI)
      fix k assume "i \<le> k \<and> k < j"
      then show "\<not> track_available now ts k"
        using IH True by (cases "k = i") auto
    qed (use IH in auto)
  next
    case False
    then show ?thesis
      using "1.prems" by (auto simp: find_track.simps [of now ts n i] split: if_splits)
  qed
qed

lemma find_track_None:
  "find_track now ts n i = None \<Longrightarrow> i \<le> k \<Longrightarrow> k < n \<Longrightarrow> \<not> track_available now ts k"
proof (induction now ts n i rule: find_track.induct)
  case (1 now ts n i)
  from "1.prems" have lt: "i < n" by simp
  from "1.prems"(1) lt have na: "\<not> track_available now ts i"
    and rec: "find_track now ts n (Suc i) = None"
    by (auto simp: find_track.simps [of now ts n i] split: if_splits)
  show ?case
  proof (cases "k = i")
    case True
    with na show ?thesis by simp
  next
    case False
    with "1.prems" have "Suc i \<le> k" by simp
    with "1.IH" lt na rec "1.prems"(3) show ?thesis by simp
  qed
qed

lemma find_track_first:
  assumes "i \<le> j" "j < n" "track_available now ts j"
    and "\<forall>k. i \<le> k \<and> k < j \<longrightarrow> \<not> track_available now ts k"
  shows "find_track now ts n i = Some j"
proof (cases "find_track now ts n i")
  case None
  with assms find_track_None show ?thesis by blast
next
  case (Some j')
  from find_track_Some [OF Some] have j': "i \<le> j'" "j' < n" "track_available now ts j'"
    "\<forall>k. i \<le> k \<and> k < j' \<longrightarrow> \<not> track_available now ts k" by auto
  have "j' = j"
  proof (rule ccontr)
    assume "j' \<noteq> j"
    then consider "j' < j" | "j < j'" by linarith
    then show False
      using assms j' by cases auto
  qed
  with Some show ?thesis by simp
qed

lemma find_hidden_Some:
  "find_hidden es = Some i \<Longrightarrow> i < length es \<and> style_display (es ! i) = ''none''"
proof (induction es arbitrary: i)
  case Nil
  then show ?case by simp
next
  case (Cons e es)
  then show ?case by (auto split: if_splits)
qed


lemma getDanmakuElement_index:
  "getDanmakuElement s = (i, s1) \<Longrightarrow> i < length (danmakuPool s1)"
  by (auto simp: getDanmakuElement_def split: option.splits dest: find_hidden_Some)

lemma getDanmakuElement_frame:
  "getDanmakuElement s = (i, s1) \<Longrightarrow>
     trackStatus s1 = trackStatus s \<and> timers s1 = timers s \<and> numTracks s1 = numTracks s
     \<and> speed s1 = speed s \<and> enabled s1 = enabled s \<and> opacity s1 = opacity s"
  by (auto simp: getDanmakuElement_def split: option.splits)

subsection \<open>What add writes\<close>

lemma add_admitted:
  assumes "enabled s" "select_track now s = Some t" "getDanmakuElement s = (i, s1)"
  shows "trackStatus (add m w now d s) =
           (trackStatus s)[t := js_add now (js_mul (js_div (w + m (content d) (js_or_number (font_size d) 24)) (speed s)) 1000)]"
    and "timers (add m w now d s) =
           timers s @ [(js_mul (js_div (w + m (content d) (js_or_number (font_size d) 24)) (speed s)) 1000, i)]"
    and "length (danmakuPool (add m w now d s)) = length (danmakuPool s1)"
    and "speed (add m w now d s) = speed s"
    and "numTracks (add m w now d s) = numTracks s"
    and "enabled (add m w now d s) = enabled s"
  using assms getDanmakuElement_frame [OF assms(3)]
  by (simp_all add: add_def Let_def)

lemma add_dropped:
  "\<not> enabled s \<or> select_track now s = None \<Longrightarrow> add m w now d s = s"
  by (auto simp: add_def)

lemma add_element:
  assumes "enabled s" "select_track now s = Some t" "getDanmakuElement s = (i, s1)"
  shows "danmakuPool (add m w now d s) ! i =
    (danmakuPool s1 ! i)
      \<lparr>textContent := content d,
       style_color := js_or_string (color d) ''#FFFFFF'',
       style_fontSize := Some (js_or_number (font_size d) 24),
       style_fontFamily := ''Microsoft YaHei, sans-serif'',
       style_textShadow :=
         ''1px 1px 2px #000, -1px -1px 2px #000, 1px -1px 2px #000, -1px 1px 2px #000'',
       style_opacity := Some (opacity s),
       style_top := Some (of_nat (t * (trackHeight s + trackGap s))),
       style_left := Some w,
       style_display := ''block'',
       style_transition := Some (js_mul (js_div (w + m (content d) (js_or_number (font_size d) 24)) (speed s)) 1000),
       style_transform := Some (w + m (content d) (js_or_number (font_size d) 24))\<rparr>"
  using assms getDanmakuElement_index [OF assms(3)]
  by (simp add: add_def Let_def)

lemma select_track_bound:
  "select_track now s = Some t \<Longrightarrow> t < numTracks s \<and> t < length (trackStatus s) \<and> js_ge now (trackStatus s ! t)"
  by (auto simp: select_track_def track_available_def dest: find_track_Some)

subsection \<open>A new engine\<close>


lemma new_engine_fields:
  "enabled (new_engine h)" "speed (new_engine h) = 100" "numTracks (new_engine h) = h div 35"
  "trackStatus (new_engine h) = replicate (h div 35) (Num 0)" "timers (new_engine h) = []"
  "opacity (new_engine h) = 1" "trackHeight (new_engine h) = 30" "trackGap (new_engine h) = 5"
  by (simp_all add: new_engine_def createPool_def calculateTracks_def Let_def)



lemma select_track_new_engine:
  "35 \<le> h \<Longrightarrow> 0 \<le> now \<Longrightarrow> select_track now (new_engine h) = Some 0"
  unfolding select_track_def
  by (rule find_track_first) (simp_all add: new_engine_fields track_available_def div_greater_zero_iff)

subsection \<open>Hidden elements stay hidden\<close>


lemma fire_frame:
  "length (danmakuPool (fire k s)) = length (danmakuPool s)"
  "trackStatus (fire k s) = trackStatus s" "speed (fire k s) = speed s"
  "enabled (fire k s) = enabled s" "numTracks (fire k s) = numTracks s"
  by (simp_all add: fire_def Let_def)





subsection \<open>Finite end times and delays\<close>







subsection \<open>Growth of the pool\<close>







subsection \<open>Admissions to one track\<close>

text \<open>
  An admission writes the chosen track's end time; an event that admits nothing and is
  not a reset leaves every end time alone. So the admissions to a track form a chain from
  the track's end time.
\<close>

lemma admitted_Some:
  assumes "admitted m e s = Some a"
  obtains now w d where "e = Add now w d" "enabled s" "select_track now s = Some (adm_track a)"
    "adm_start a = now"
    "adm_duration a = js_mul (js_div (w + m (content d) (js_or_number (font_size d) 24)) (speed s)) 1000"
  using assms by (cases e) (auto split: if_splits option.splits)

lemma admitted_step:
  assumes "admitted m e s = Some a"
  shows "js_ge (adm_start a) (trackStatus s ! adm_track a)
    \<and> adm_track a < length (trackStatus s)
    \<and> trackStatus (step m e s) =
        (trackStatus s)[adm_track a := js_add (adm_start a) (adm_duration a)]"
proof -
  from assms obtain now w d where e: "e = Add now w d" and en: "enabled s"
    and st: "select_track now s = Some (adm_track a)" and n: "adm_start a = now"
    and du: "adm_duration a =
      js_mul (js_div (w + m (content d) (js_or_number (font_size d) 24)) (speed s)) 1000"
    by (rule admitted_Some)
  obtain i s1 where g: "getDanmakuElement s = (i, s1)" by (cases "getDanmakuElement s")
  from select_track_bound [OF st] add_admitted(1) [OF en st g, of m w d] e n du
  show ?thesis by simp
qed

lemma not_admitted_step:
  assumes "admitted m e s = None" and "keeps_reservations e"
  shows "trackStatus (step m e s) = trackStatus s"
proof (cases e)
  case (Add now w d)
  with assms(1) have "\<not> enabled s \<or> select_track now s = None"
    by (auto split: if_splits option.splits)
  then have "add m w now d s = s" by (rule add_dropped)
  with Add show ?thesis by simp
next
  case (Fire k)
  then show ?thesis by (simp add: fire_frame)
next
  case (SetEnabled b)
  with assms(2) show ?thesis by (simp add: setEnabled_def Let_def)
next
  case (SetOpacity v)
  then show ?thesis by (simp add: setOpacity_def)
next
  case (SetSpeed x)
  then show ?thesis by (simp add: setSpeed_def)
next
  case Clear
  with assms(2) show ?thesis by simp
next
  case (Resize h)
  with assms(2) show ?thesis by simp
qed

lemma admissions_chain:
  "list_all keeps_reservations evs \<Longrightarrow>
     chain_from (trackStatus s ! l) (filter (\<lambda>a. adm_track a = l) (admissions m evs s))"
proof (induction evs arbitrary: s)
  case Nil
  show ?case by simp
next
  case (Cons e es)
  from Cons.prems have k: "keeps_reservations e" and ks: "list_all keeps_reservations es"
    by simp_all
  have IH: "chain_from (trackStatus (step m e s) ! l)
      (filter (\<lambda>a. adm_track a = l) (admissions m es (step m e s)))"
    using ks by (rule Cons.IH)
  show ?case
  proof (cases "admitted m e s")
    case None
    with not_admitted_step [OF None k] IH show ?thesis by simp
  next
    case (Some a)
    note st = admitted_step [OF Some]
    show ?thesis
    proof (cases "adm_track a = l")
      case True
      with st have "trackStatus (step m e s) ! l = js_add (adm_start a) (adm_duration a)"
        by simp
      with IH st True Some show ?thesis by simp
    next
      case False
      with st have "trackStatus (step m e s) ! l = trackStatus s ! l" by simp
      with IH False Some show ?thesis by simp
    qed
  qed
qed

lemma chain_from_adjacent:
  "chain_from f as \<Longrightarrow> Suc k < length as \<Longrightarrow>
     js_ge (adm_start (as ! Suc k)) (js_add (adm_start (as ! k)) (adm_duration (as ! k)))"
proof (induction as arbitrary: f k)
  case Nil
  then show ?case by simp
next
  case (Cons a as)
  show ?case
  proof (cases k)
    case 0
    with Cons.prems show ?thesis by (cases as) simp_all
  next
    case (Suc j)
    with Cons.prems Cons.IH [of "js_add (adm_start a) (adm_duration a)" j] show ?thesis by simp
  qed
qed

lemma no_overlap:
  assumes "js_ge (adm_start b) (js_add (adm_start a) (adm_duration a))"
  shows "\<not> (occupies a t \<and> occupies b t)"
  using assms
  by (cases "js_add (adm_start a) (adm_duration a)") (auto simp: occupies_def)

lemma js_ge_trans:
  "js_ge x (js_add y d) \<Longrightarrow> js_nonneg d \<Longrightarrow> js_ge y f \<Longrightarrow> js_ge x f"
  by (cases d; cases f) auto

lemma chain_from_all:
  "chain_from f as \<Longrightarrow> list_all (\<lambda>a. js_nonneg (adm_duration a)) as \<Longrightarrow> a \<in> set as \<Longrightarrow>
     js_ge (adm_start a) f"
proof (induction as arbitrary: f)
  case Nil
  then show ?case by simp
next
  case (Cons b bs)
  show ?case
  proof (cases "a = b")
    case True
    with Cons.prems(1) show ?thesis by simp
  next
    case False
    with Cons.prems(3) have "a \<in> set bs" by simp
    with Cons.IH [of "js_add (adm_start b) (adm_duration b)"] Cons.prems(1,2)
    have "js_ge (adm_start a) (js_add (adm_start b) (adm_duration b))" by simp
    moreover have "js_nonneg (adm_duration b)" "js_ge (adm_start b) f"
      using Cons.prems(1,2) by simp_all
    ultimately show ?thesis by (rule js_ge_trans)
  qed
qed

lemma chain_from_pairs:
  "chain_from f as \<Longrightarrow> list_all (\<lambda>a. js_nonneg (adm_duration a)) as \<Longrightarrow>
     i < j \<Longrightarrow> j < length as \<Longrightarrow>
     js_ge (adm_start (as ! j)) (js_add (adm_start (as ! i)) (adm_duration (as ! i)))"
proof (induction as arbitrary: f i j)
  case Nil
  then show ?case by simp
next
  case (Cons b bs)
  from Cons.prems(3) obtain j' where j: "j = Suc j'" by (cases j) simp_all
  with Cons.prems(4) have j': "j' < length bs" by simp
  have tl: "chain_from (js_add (adm_start b) (adm_duration b)) bs"
    and nn: "list_all (\<lambda>a. js_nonneg (adm_duration a)) bs"
    using Cons.prems(1,2) by simp_all
  show ?case
  proof (cases i)
    case 0
    from j' have "bs ! j' \<in> set bs" by simp
    with chain_from_all [OF tl nn] 0 j show ?thesis by simp
  next
    case (Suc i')
    with Cons.prems(3) j have "i' < j'" by simp
    from Cons.IH [OF tl nn this j'] Suc j show ?thesis by simp
  qed
qed

subsection \<open>Releasing an element\<close>

text \<open>
  C9. \<open>recycleDanmakuElement\<close> is idempotent: applied to an element that is already
  free (hidden, empty content, no transform) it returns the element as it is, it always
  leaves the element hidden, empty and without transform, and applying it twice is the
  same as applying it once.
\<close>

theorem recycle_idempotent:
  "recycleDanmakuElement (recycleDanmakuElement el) = recycleDanmakuElement el
   \<and> style_display (recycleDanmakuElement el) = ''none''
   \<and> textContent (recycleDanmakuElement el) = []
   \<and> style_transform (recycleDanmakuElement el) = None
   \<and> (style_display el = ''none'' \<and> textContent el = [] \<and> style_transform el = None
        \<longrightarrow> recycleDanmakuElement el = el)"
  by (simp add: recycleDanmakuElement_def)

theorem recycle_idempotent_witness:
  "style_display pooled_element = ''none'' \<and> textContent pooled_element = []
   \<and> style_transform pooled_element = None
   \<and> recycleDanmakuElement pooled_element = pooled_element"
  using recycle_idempotent [of pooled_element]
  by (simp add: pooled_element_def blank_element_def)

subsection \<open>Choosing a track\<close>

text \<open>
  C1. When some track is available (\<open>now >= trackStatus[i]\<close> for an \<open>i\<close> below
  \<open>numTracks\<close>), the scan of \<open>add\<close> selects the lowest such index; an enabled
  engine then reserves exactly that track and places the element at that track's offset.
  The selection reads only \<open>now\<close>, \<open>trackStatus\<close> and \<open>numTracks\<close>: two engines
  that agree on them select the same track.
\<close>

theorem first_fit:
  assumes "i < numTracks s" and "track_available now (trackStatus s) i"
  shows "select_track now s = Some (LEAST j. j < numTracks s \<and> track_available now (trackStatus s) j)
    \<and> (enabled s \<longrightarrow>
         trackStatus (add m w now d s) =
           (trackStatus s)[(LEAST j. j < numTracks s \<and> track_available now (trackStatus s) j) :=
              js_add now (js_mul (js_div (w + m (content d) (js_or_number (font_size d) 24)) (speed s)) 1000)]
         \<and> style_top (danmakuPool (add m w now d s) ! fst (getDanmakuElement s)) =
             Some (of_nat ((LEAST j. j < numTracks s \<and> track_available now (trackStatus s) j)
                             * (trackHeight s + trackGap s))))
    \<and> (trackStatus s' = trackStatus s \<and> numTracks s' = numTracks s \<longrightarrow>
         select_track now s' = select_track now s)"
proof -
  define L where "L = (LEAST j. j < numTracks s \<and> track_available now (trackStatus s) j)"
  have L: "L < numTracks s \<and> track_available now (trackStatus s) L"
    unfolding L_def
    by (rule LeastI [of "\<lambda>j. j < numTracks s \<and> track_available now (trackStatus s) j" i])
       (use assms in simp)
  have below: "\<not> track_available now (trackStatus s) k" if "k < L" for k
  proof
    assume "track_available now (trackStatus s) k"
    with that L have "k < numTracks s \<and> track_available now (trackStatus s) k" by simp
    then have "L \<le> k"
      unfolding L_def
      by (rule Least_le [of "\<lambda>j. j < numTracks s \<and> track_available now (trackStatus s) j"])
    with that show False by simp
  qed
  have sel: "select_track now s = Some L"
    unfolding select_track_def
    by (rule find_track_first) (use L below in simp_all)
  obtain i1 s1 where g: "getDanmakuElement s = (i1, s1)" by (cases "getDanmakuElement s")
  have c1: "trackStatus (add m w now d s) =
           (trackStatus s)[L :=
              js_add now (js_mul (js_div (w + m (content d) (js_or_number (font_size d) 24)) (speed s)) 1000)]"
    if "enabled s"
    by (rule add_admitted(1) [OF that sel g])
  have c2: "style_top (danmakuPool (add m w now d s) ! fst (getDanmakuElement s)) =
             Some (of_nat (L * (trackHeight s + trackGap s)))"
    if "enabled s"
    using add_element [OF that sel g, of m w d] g by simp
  have c3: "select_track now s' = select_track now s"
    if "trackStatus s' = trackStatus s \<and> numTracks s' = numTracks s"
    using that by (simp add: select_track_def)
  show ?thesis
    unfolding L_def [symmetric]
    using sel c1 c2 c3 by simp
qed

theorem first_fit_witness:
  "select_track 5000 (add fixed_width 900 0 demo (new_engine 105)) = Some 1
   \<and> (LEAST j. j < numTracks (add fixed_width 900 0 demo (new_engine 105))
         \<and> track_available 5000 (trackStatus (add fixed_width 900 0 demo (new_engine 105))) j) = 1
"
proof -
  let ?s = "add fixed_width 900 0 demo (new_engine 105)"
  have a: "2 < numTracks ?s" by code_simp
  have b: "track_available 5000 (trackStatus ?s) 2" by code_simp
  have c: "select_track 5000 ?s = Some 1" by code_simp
  from first_fit [OF a b, of fixed_width 900 demo ?s] c show ?thesis by simp
qed

text \<open>
  C3. When every track's end time is later than \<open>now\<close>, \<open>add\<close> returns the engine
  as it was: no element is taken from the pool or created, no track is written and no
  timer is set.
\<close>

theorem saturation_drop:
  assumes "\<forall>i<numTracks s. js_lt now (trackStatus s ! i)"
  shows "add m w now d s = s"
proof -
  have "select_track now s = None"
  proof (cases "select_track now s")
    case (Some t)
    then have "t < numTracks s" "js_ge now (trackStatus s ! t)"
      using select_track_bound by blast+
    moreover have "js_lt now (trackStatus s ! t)" using assms calculation(1) by simp
    ultimately show ?thesis by (cases "trackStatus s ! t") auto
  qed simp
  then show ?thesis by (rule add_dropped [OF disjI2])
qed

theorem saturation_drop_witness:
  "numTracks (add fixed_width 900 0 demo (new_engine 35)) = 1
   \<and> js_lt 5000 (trackStatus (add fixed_width 900 0 demo (new_engine 35)) ! 0)
   \<and> add fixed_width 900 5000 demo (add fixed_width 900 0 demo (new_engine 35))
       = add fixed_width 900 0 demo (new_engine 35)"
proof -
  let ?s = "add fixed_width 900 0 demo (new_engine 35)"
  have n: "numTracks ?s = 1" by code_simp
  have l: "js_lt 5000 (trackStatus ?s ! 0)" by code_simp
  have "\<forall>i<numTracks ?s. js_lt 5000 (trackStatus ?s ! i)" using n l by simp
  from saturation_drop [OF this] n l show ?thesis by simp
qed

subsection \<open>An admitted comment\<close>



text \<open>
  C10. An admitted comment whose \<open>color\<close> is absent or empty is shown in
  \<open>#FFFFFF\<close>, and one whose \<open>font_size\<close> is absent or zero is shown, and measured,
  at 24 pixels; a color and a font size that are supplied and not falsy are used as they
  are.
\<close>

theorem add_defaults:
  assumes "enabled s" and "select_track now s = Some t"
  shows "let el = danmakuPool (add m W now d s) ! fst (getDanmakuElement s);
             size = (case font_size d of None \<Rightarrow> 24 | Some n \<Rightarrow> if n = 0 then 24 else n)
         in style_color el = (case color d of None \<Rightarrow> ''#FFFFFF''
                              | Some c \<Rightarrow> if c = [] then ''#FFFFFF'' else c)
            \<and> style_fontSize el = Some size
            \<and> style_transform el = Some (W + m (content d) size)
            \<and> textContent el = content d
            \<and> style_display el = ''block''"
proof -
  obtain i s1 where g: "getDanmakuElement s = (i, s1)" by (cases "getDanmakuElement s")
  show ?thesis
    using add_element [OF assms g, of m W d] g
    by (simp add: Let_def js_or_string_def js_or_number_def)
qed

theorem add_defaults_witness:
  "style_color (danmakuPool (add fixed_width 900 0 demo (new_engine 35)) ! 0) = ''#FFFFFF''
   \<and> style_fontSize (danmakuPool (add fixed_width 900 0 demo (new_engine 35)) ! 0) = Some 24
   \<and> style_color (danmakuPool (add fixed_width 900 0 styled (new_engine 35)) ! 0) = ''#FF0000''
   \<and> style_fontSize (danmakuPool (add fixed_width 900 0 styled (new_engine 35)) ! 0) = Some 32"
proof -
  have g: "fst (getDanmakuElement (new_engine 35)) = 0" by code_simp
  have st: "select_track 0 (new_engine 35) = Some 0" by (simp add: select_track_new_engine)
  from add_defaults [OF new_engine_fields(1) st, of fixed_width 900 demo]
       add_defaults [OF new_engine_fields(1) st, of fixed_width 900 styled] g
  show ?thesis
    by (simp add: Let_def demo_def styled_def)
qed

subsection \<open>Changing the speed\<close>

text \<open>
  C6. \<open>setSpeed x\<close> sets the speed to the base speed (100, the speed of a new engine)
  times \<open>x\<close> and changes no other field: the tracks' end times, the pending timers
  with their durations and the pooled elements stay as they are, and the track scan
  answers the same. A comment admitted after the call gets the duration computed from the
  new speed.
\<close>

theorem setSpeed_frame:
  "setSpeed x s = s\<lparr>speed := 100 * x\<rparr>
   \<and> speed (setSpeed x s) = speed (new_engine h) * x
   \<and> trackStatus (setSpeed x s) = trackStatus s
   \<and> timers (setSpeed x s) = timers s
   \<and> danmakuPool (setSpeed x s) = danmakuPool s
   \<and> select_track now (setSpeed x s) = select_track now s
   \<and> (enabled s \<and> select_track now s = Some t \<longrightarrow>
        trackStatus (add m W now d (setSpeed x s)) ! t =
          js_add now (js_mul (js_div (W + m (content d) (js_or_number (font_size d) 24)) (100 * x)) 1000)
        \<and> timers (add m W now d (setSpeed x s)) =
          timers s @ [(js_mul (js_div (W + m (content d) (js_or_number (font_size d) 24)) (100 * x)) 1000,
                       fst (getDanmakuElement s))])"
proof -
  have frame: "setSpeed x s = s\<lparr>speed := 100 * x\<rparr>" by (simp add: setSpeed_def)
  have sel: "select_track now (setSpeed x s) = select_track now s"
    by (simp add: setSpeed_def select_track_def)
  have g: "fst (getDanmakuElement (setSpeed x s)) = fst (getDanmakuElement s)"
    by (simp add: setSpeed_def getDanmakuElement_def split: option.splits)
  have later: "trackStatus (add m W now d (setSpeed x s)) ! t =
          js_add now (js_mul (js_div (W + m (content d) (js_or_number (font_size d) 24)) (100 * x)) 1000)
        \<and> timers (add m W now d (setSpeed x s)) =
          timers s @ [(js_mul (js_div (W + m (content d) (js_or_number (font_size d) 24)) (100 * x)) 1000,
                       fst (getDanmakuElement s))]"
    if "enabled s \<and> select_track now s = Some t"
  proof -
    have e: "enabled (setSpeed x s)" using that by (simp add: setSpeed_def)
    have st: "select_track now (setSpeed x s) = Some t" using that sel by simp
    obtain i s1 where g1: "getDanmakuElement (setSpeed x s) = (i, s1)"
      by (cases "getDanmakuElement (setSpeed x s)")
    have t: "t < length (trackStatus s)" using select_track_bound that by blast
    from add_admitted(1,2) [OF e st g1, of m W d] g g1 t show ?thesis
      by (simp add: setSpeed_def)
  qed
  show ?thesis
    using frame sel later by (simp add: new_engine_fields)
qed

theorem setSpeed_frame_witness:
  "speed (setSpeed 2 (add fixed_width 900 0 demo (new_engine 70))) = 200
   \<and> trackStatus (setSpeed 2 (add fixed_width 900 0 demo (new_engine 70))) = [Num 10000, Num 0]
   \<and> timers (setSpeed 2 (add fixed_width 900 0 demo (new_engine 70))) = [(Num 10000, 0)]
   \<and> trackStatus (add fixed_width 900 1000 demo (setSpeed 2 (add fixed_width 900 0 demo (new_engine 70)))) ! 1
        = Num 6000"
proof -
  let ?s = "add fixed_width 900 0 demo (new_engine 70)"
  have e: "enabled ?s" by code_simp
  have st: "select_track 1000 ?s = Some 1" by code_simp
  have ts: "trackStatus ?s = [Num 10000, Num 0]" by code_simp
  have tm: "timers ?s = [(Num 10000, 0)]" by code_simp
  from conjunct2 [OF setSpeed_frame [of 2 ?s 70 1000 1 fixed_width 900 demo]] e st ts tm
  show ?thesis
    by (simp add: new_engine_fields fixed_width_def js_div_def)
qed

subsection \<open>Disabling the engine\<close>



subsection \<open>The speed and division by zero\<close>




subsection \<open>The size of the pool\<close>




subsection \<open>One comment per track at a time\<close>

text \<open>
  C2. Through any events other than resize, clear and setEnabled(false), take the
  comments admitted to one track in order. Each is admitted at or after the end time
  (start plus duration) of the one admitted to that track before it, so the reservations
  \<open>[start, start + duration)\<close> of two successive comments share no instant; when no
  duration on the track is negative the same holds for any two of them. The mechanism:
  a comment is admitted to a track only when \<open>now >= trackStatus[track]\<close>, and the
  admission sets \<open>trackStatus[track]\<close> to \<open>now + duration\<close>.
\<close>

theorem lane_mutual_exclusion:
  assumes "list_all keeps_reservations evs"
  shows "let on_lane = filter (\<lambda>a. adm_track a = l) (admissions m evs s)
         in (Suc k < length on_lane \<longrightarrow>
               js_ge (adm_start (on_lane ! Suc k))
                 (js_add (adm_start (on_lane ! k)) (adm_duration (on_lane ! k)))
               \<and> \<not> (occupies (on_lane ! k) t \<and> occupies (on_lane ! Suc k) t))
            \<and> (list_all (\<lambda>a. js_nonneg (adm_duration a)) on_lane \<and> i < j \<and> j < length on_lane \<longrightarrow>
               \<not> (occupies (on_lane ! i) t \<and> occupies (on_lane ! j) t))
            \<and> (admitted m e s' = Some a \<longrightarrow>
               js_ge (adm_start a) (trackStatus s' ! adm_track a)
               \<and> trackStatus (step m e s') ! adm_track a = js_add (adm_start a) (adm_duration a))"
proof -
  define on_lane where "on_lane = filter (\<lambda>a. adm_track a = l) (admissions m evs s)"
  have ch: "chain_from (trackStatus s ! l) on_lane"
    unfolding on_lane_def using assms by (rule admissions_chain)
  have c1: "Suc k < length on_lane \<longrightarrow>
               js_ge (adm_start (on_lane ! Suc k))
                 (js_add (adm_start (on_lane ! k)) (adm_duration (on_lane ! k)))
               \<and> \<not> (occupies (on_lane ! k) t \<and> occupies (on_lane ! Suc k) t)"
  proof
    assume "Suc k < length on_lane"
    with ch have "js_ge (adm_start (on_lane ! Suc k))
                 (js_add (adm_start (on_lane ! k)) (adm_duration (on_lane ! k)))"
      by (rule chain_from_adjacent)
    with no_overlap show "js_ge (adm_start (on_lane ! Suc k))
                 (js_add (adm_start (on_lane ! k)) (adm_duration (on_lane ! k)))
               \<and> \<not> (occupies (on_lane ! k) t \<and> occupies (on_lane ! Suc k) t)"
      by blast
  qed
  have c2: "list_all (\<lambda>a. js_nonneg (adm_duration a)) on_lane \<and> i < j \<and> j < length on_lane \<longrightarrow>
               \<not> (occupies (on_lane ! i) t \<and> occupies (on_lane ! j) t)"
  proof
    assume h: "list_all (\<lambda>a. js_nonneg (adm_duration a)) on_lane \<and> i < j \<and> j < length on_lane"
    with ch have "js_ge (adm_start (on_lane ! j))
        (js_add (adm_start (on_lane ! i)) (adm_duration (on_lane ! i)))"
      using chain_from_pairs by blast
    then show "\<not> (occupies (on_lane ! i) t \<and> occupies (on_lane ! j) t)"
      by (rule no_overlap)
  qed
  have c3: "admitted m e s' = Some a \<longrightarrow>
               js_ge (adm_start a) (trackStatus s' ! adm_track a)
               \<and> trackStatus (step m e s') ! adm_track a = js_add (adm_start a) (adm_duration a)"
  proof
    assume "admitted m e s' = Some a"
    from admitted_step [OF this]
    show "js_ge (adm_start a) (trackStatus s' ! adm_track a)
               \<and> trackStatus (step m e s') ! adm_track a = js_add (adm_start a) (adm_duration a)"
      by simp
  qed
  from c1 c2 c3 show ?thesis
    unfolding Let_def on_lane_def [symmetric] by (intro conjI)
qed

theorem lane_mutual_exclusion_witness:
  "list_all keeps_reservations busy_lane
   \<and> filter (\<lambda>a. adm_track a = 0) (admissions fixed_width busy_lane (new_engine 35)) =
       [\<lparr>adm_track = 0, adm_start = 0, adm_duration = Num 10000\<rparr>,
        \<lparr>adm_track = 0, adm_start = 10001, adm_duration = Num 10000\<rparr>,
        \<lparr>adm_track = 0, adm_start = 20001, adm_duration = Num 5000\<rparr>]
   \<and> \<not> (occupies \<lparr>adm_track = 0, adm_start = 0, adm_duration = Num 10000\<rparr> 10001
         \<and> occupies \<lparr>adm_track = 0, adm_start = 10001, adm_duration = Num 10000\<rparr> 10001)
   \<and> \<not> (occupies \<lparr>adm_track = 0, adm_start = 0, adm_duration = Num 10000\<rparr> 20001
         \<and> occupies \<lparr>adm_track = 0, adm_start = 20001, adm_duration = Num 5000\<rparr> 20001)
   \<and> trackStatus (step fixed_width (Add 0 900 demo) (new_engine 35)) ! 0 = Num 10000"
proof -
  have k: "list_all keeps_reservations busy_lane" by (simp add: busy_lane_def)
  have log: "filter (\<lambda>a. adm_track a = 0) (admissions fixed_width busy_lane (new_engine 35)) =
       [\<lparr>adm_track = 0, adm_start = 0, adm_duration = Num 10000\<rparr>,
        \<lparr>adm_track = 0, adm_start = 10001, adm_duration = Num 10000\<rparr>,
        \<lparr>adm_track = 0, adm_start = 20001, adm_duration = Num 5000\<rparr>]"
    by code_simp
  have ad: "admitted fixed_width (Add 0 900 demo) (new_engine 35) =
      Some \<lparr>adm_track = 0, adm_start = 0, adm_duration = Num 10000\<rparr>"
    by code_simp
  note T = lane_mutual_exclusion [OF k, of 0 fixed_width "new_engine 35" 0 _ 0 2
      "Add 0 900 demo" "new_engine 35" "\<lparr>adm_track = 0, adm_start = 0, adm_duration = Num 10000\<rparr>",
      unfolded Let_def log]
  from T [of 10001] have r1:
    "\<not> (occupies \<lparr>adm_track = 0, adm_start = 0, adm_duration = Num 10000\<rparr> 10001
         \<and> occupies \<lparr>adm_track = 0, adm_start = 10001, adm_duration = Num 10000\<rparr> 10001)"
    by simp
  from T [of 20001] have r2:
    "\<not> (occupies \<lparr>adm_track = 0, adm_start = 0, adm_duration = Num 10000\<rparr> 20001
         \<and> occupies \<lparr>adm_track = 0, adm_start = 20001, adm_duration = Num 5000\<rparr> 20001)"
    by simp
  from T [of 0] ad have r3: "trackStatus (step fixed_width (Add 0 900 demo) (new_engine 35)) ! 0 = Num 10000"
    by simp
  from k log r1 r2 r3 show ?thesis by (intro conjI)
qed

end
